theory Spec2Isabelle
  imports Main "HOL-Library.Word" "HOL-Library.Sublist"
begin

section \<open>JavaScript strings and values\<close>

text \<open>
  A JavaScript string is a sequence of 16-bit code units; \<open>split("")\<close>, \<open>indexOf\<close>,
  \<open>charCodeAt\<close>, \<open>slice\<close> and regular expressions without the \<open>u\<close> flag all work on code
  units. String literals of the source are written \<open>js ''...''\<close>, single code units
  \<open>ch CHR ''x''\<close>.
\<close>

type_synonym cu = "16 word"
type_synonym jsstr = "cu list"

abbreviation ch :: "char \<Rightarrow> cu" where
  "ch c \<equiv> of_char c"

abbreviation js :: "string \<Rightarrow> jsstr" where
  "js s \<equiv> map of_char s"

text \<open>
  The values \<open>JSON.parse\<close> can put into a field of the document, and \<open>undefined\<close> for a
  field that is missing. The script never computes with a number: \<open>JNum\<close> carries the text
  that JavaScript's number-to-string conversion gives it. \<open>JObj\<close> is a plain object with
  its own properties, in the order of the document.
\<close>

datatype jsval =
    JUndefined
  | JNull
  | JBool bool
  | JNum jsstr
  | JStr jsstr
  | JArr "jsval list"
  | JObj "(jsstr \<times> jsval) list"

datatype error = TypeError | ReadError

text \<open>
  String conversion, as a template literal \<open>${v}\<close> and \<open>replace\<close> (to its second argument)
  apply it. An array is joined with commas, \<open>null\<close> and \<open>undefined\<close> elements giving the
  empty string. An object is converted by the \<open>toString\<close> it inherits, which gives
  \<open>[object Object]\<close>, unless it has a property \<open>toString\<close> of its own: a value of the
  document is never a function, the inherited \<open>valueOf\<close> gives the object back, and the
  conversion raises a \<open>TypeError\<close>.
\<close>

fun toString :: "jsval \<Rightarrow> error + jsstr" and join_comma :: "jsval list \<Rightarrow> error + jsstr" where
  "toString JUndefined = Inr (js ''undefined'')"
| "toString JNull = Inr (js ''null'')"
| "toString (JBool b) = Inr (if b then js ''true'' else js ''false'')"
| "toString (JNum text) = Inr text"
| "toString (JStr s) = Inr s"
| "toString (JArr xs) = join_comma xs"
| "toString (JObj props) =
     (if js ''toString'' \<in> set (map fst props) then Inl TypeError
      else Inr (js ''[object Object]''))"
| "join_comma [] = Inr []"
| "join_comma [x] = (if x = JUndefined \<or> x = JNull then Inr [] else toString x)"
| "join_comma (x # y # ys) =
     (case (if x = JUndefined \<or> x = JNull then Inr [] else toString x) of
        Inl e \<Rightarrow> Inl e
      | Inr a \<Rightarrow>
          (case join_comma (y # ys) of
             Inl e \<Rightarrow> Inl e
           | Inr b \<Rightarrow> Inr (a @ ch CHR '','' # b)))"

subsection \<open>String methods\<close>

text \<open>\<open>s.indexOf(pat)\<close>: the first index at which \<open>pat\<close> occurs, \<open>None\<close> for \<open>-1\<close>.\<close>

fun indexOf :: "jsstr \<Rightarrow> jsstr \<Rightarrow> nat option" where
  "indexOf [] pat = (if pat = [] then Some 0 else None)"
| "indexOf (c # cs) pat =
     (if prefix pat (c # cs) then Some 0 else map_option Suc (indexOf cs pat))"

text \<open>\<open>s.includes(pat)\<close>.\<close>

definition includes_str :: "jsstr \<Rightarrow> jsstr \<Rightarrow> bool" where
  "includes_str s pat = (indexOf s pat \<noteq> None)"

text \<open>
  \<open>s.replace(/c/g, r)\<close> for a pattern that is one literal character and a replacement
  text without \<open>$\<close>: every occurrence of the character is replaced.
\<close>

fun replaceAll_char :: "jsstr \<Rightarrow> cu \<Rightarrow> jsstr \<Rightarrow> jsstr" where
  "replaceAll_char [] c r = []"
| "replaceAll_char (x # xs) c r =
     (if x = c then r @ replaceAll_char xs c r else x # replaceAll_char xs c r)"

text \<open>
  \<open>s.replace(/d([^d]+)d/g, "opn$1cls")\<close> for a delimiter character \<open>d\<close>. The scan goes
  from left to right. At a delimiter the class \<open>[^d]+\<close> takes the longest run of other
  characters; the match succeeds when that run is not empty and a delimiter follows it
  (a shorter run is followed by a character of the run, so backtracking finds nothing).
  After a match the scan goes on behind the closing delimiter; where nothing matches, the
  character is copied.
\<close>

function replace_delimited :: "jsstr \<Rightarrow> cu \<Rightarrow> jsstr \<Rightarrow> jsstr \<Rightarrow> jsstr" where
  "replace_delimited [] d opn cls = []"
| "replace_delimited (c # cs) d opn cls =
     (if c = d \<and> takeWhile (\<lambda>x. x \<noteq> d) cs \<noteq> [] \<and> dropWhile (\<lambda>x. x \<noteq> d) cs \<noteq> []
      then opn @ takeWhile (\<lambda>x. x \<noteq> d) cs @ cls @
        replace_delimited (tl (dropWhile (\<lambda>x. x \<noteq> d) cs)) d opn cls
      else c # replace_delimited cs d opn cls)"
  by pat_completeness auto
termination
proof (relation "measure (\<lambda>(s, d, opn, cls). length s)")
  show "wf (measure (\<lambda>(s, d, opn, cls). length s))"
    by simp
next
  fix c :: cu and cs :: jsstr and d :: cu and opn cls :: jsstr
  have "length (tl (dropWhile (\<lambda>x. x \<noteq> d) cs)) \<le> length (dropWhile (\<lambda>x. x \<noteq> d) cs)"
    by simp
  also have "\<dots> \<le> length cs"
    by (rule length_dropWhile_le)
  finally show "((tl (dropWhile (\<lambda>x. x \<noteq> d) cs), d, opn, cls), (c # cs, d, opn, cls))
      \<in> measure (\<lambda>(s, d, opn, cls). length s)"
    by simp
next
  fix c :: cu and cs :: jsstr and d :: cu and opn cls :: jsstr
  show "((cs, d, opn, cls), (c # cs, d, opn, cls)) \<in> measure (\<lambda>(s, d, opn, cls). length s)"
    by simp
qed

text \<open>
  The substitution template of \<open>s.replace(pattern, replacement)\<close> for a pattern that is a
  string: there are no captures, so the only active patterns of the replacement text are
  \<open>$$\<close> (a dollar sign), \<open>$&\<close> (the matched text), \<open>$`\<close> (the text before the match) and
  \<open>$'\<close> (the text after the match). Every other character stands for itself.
\<close>

fun getSubstitution :: "jsstr \<Rightarrow> jsstr \<Rightarrow> nat \<Rightarrow> jsstr \<Rightarrow> jsstr" where
  "getSubstitution matched s pos (a # b # r) =
     (if a = ch CHR ''$'' \<and> b = ch CHR ''$'' then ch CHR ''$'' # getSubstitution matched s pos r
      else if a = ch CHR ''$'' \<and> b = ch CHR ''&'' then matched @ getSubstitution matched s pos r
      else if a = ch CHR ''$'' \<and> b = ch CHR 0x60 then take pos s @ getSubstitution matched s pos r
      else if a = ch CHR ''$'' \<and> b = ch CHR 0x27
        then drop (pos + length matched) s @ getSubstitution matched s pos r
      else a # getSubstitution matched s pos (b # r))"
| "getSubstitution matched s pos r = r"

text \<open>
  \<open>s.replace(searchValue, replaceValue)\<close> with a string pattern: only the first
  occurrence is looked for.
\<close>

definition replace_str :: "jsstr \<Rightarrow> jsstr \<Rightarrow> jsstr \<Rightarrow> jsstr" where
  "replace_str s searchValue replaceValue =
     (case indexOf s searchValue of
        None \<Rightarrow> s
      | Some pos \<Rightarrow>
          take pos s @ getSubstitution searchValue s pos replaceValue
            @ drop (pos + length searchValue) s)"

text \<open>
  The characters \<open>\s\<close> matches and \<open>trim\<close> strips: white space and line terminators.
\<close>

definition is_ws :: "cu \<Rightarrow> bool" where
  "is_ws c \<longleftrightarrow>
     c = 0x09 \<or> c = 0x0A \<or> c = 0x0B \<or> c = 0x0C \<or> c = 0x0D \<or> c = 0x20 \<or> c = 0xA0 \<or>
     c = 0x1680 \<or> (0x2000 \<le> c \<and> c \<le> 0x200A) \<or> c = 0x2028 \<or> c = 0x2029 \<or>
     c = 0x202F \<or> c = 0x205F \<or> c = 0x3000 \<or> c = 0xFEFF"

text \<open>\<open>s.replace(/\s+/g, " ")\<close>: every maximal run of white space becomes one space.\<close>

function replace_ws_runs :: "jsstr \<Rightarrow> jsstr" where
  "replace_ws_runs [] = []"
| "replace_ws_runs (c # cs) =
     (if is_ws c then ch CHR '' '' # replace_ws_runs (dropWhile is_ws cs)
      else c # replace_ws_runs cs)"
  by pat_completeness auto
termination
proof (relation "measure length")
  show "wf (measure (length :: jsstr \<Rightarrow> nat))"
    by simp
next
  fix c :: cu and cs :: jsstr
  have "length (dropWhile is_ws cs) \<le> length cs"
    by (rule length_dropWhile_le)
  then show "(dropWhile is_ws cs, c # cs) \<in> measure length"
    by simp
next
  fix c :: cu and cs :: jsstr
  show "(cs, c # cs) \<in> measure length"
    by simp
qed

text \<open>\<open>s.trim()\<close>.\<close>

definition trim :: "jsstr \<Rightarrow> jsstr" where
  "trim s = rev (dropWhile is_ws (rev (dropWhile is_ws s)))"

text \<open>
  \<open>s.split(d)\<close> for a separator of one character: the pieces between the separators,
  empty pieces included; the empty string gives one empty piece.
\<close>

fun split_str :: "jsstr \<Rightarrow> cu \<Rightarrow> jsstr list" where
  "split_str [] d = [[]]"
| "split_str (c # cs) d =
     (if c = d then [] # split_str cs d
      else (case split_str cs d of [] \<Rightarrow> [[c]] | p # ps \<Rightarrow> (c # p) # ps))"

text \<open>\<open>s.slice(-n)\<close>: the last \<open>n\<close> characters, the whole string when it is shorter.\<close>

definition slice_last :: "jsstr \<Rightarrow> nat \<Rightarrow> jsstr" where
  "slice_last s n = drop (length s - n) s"

section \<open>Obfuscation and masking of the contact details\<close>

text \<open>\<open>str.split("").map((c) => c.charCodeAt(0) + shift)\<close> with \<open>shift = 7\<close>.\<close>

definition obfuscate :: "jsstr \<Rightarrow> int list" where
  "obfuscate str = (let shift = 7 in map (\<lambda>c. uint c + shift) str)"

text \<open>
  The decoding the specification describes for the reader of the encoded attribute:
  subtract the constant from each integer and convert the result back to a character
  (\<open>String.fromCharCode\<close>, which takes its argument modulo \<open>2^16\<close>).
\<close>

definition decode :: "int list \<Rightarrow> jsstr" where
  "decode ns = map (\<lambda>n. word_of_int (n - 7)) ns"

definition printable_ascii :: "cu \<Rightarrow> bool" where
  "printable_ascii c \<longleftrightarrow> 0x20 \<le> c \<and> c \<le> 0x7E"

definition maskEmail :: "jsstr \<Rightarrow> jsstr" where
  "maskEmail email =
     (case indexOf email (js ''@'') of
        None \<Rightarrow> js ''***''
      | Some atIndex \<Rightarrow>
          if atIndex > 0 then js ''***'' @ drop atIndex email else js ''***'')"

definition maskPhone :: "jsstr \<Rightarrow> jsstr" where
  "maskPhone phone =
     (let cleaned = trim (replace_ws_runs phone);
          parts = split_str cleaned (ch CHR '' '')
      in if length parts \<ge> 2
         then (let countryCode = parts ! 0;
                   lastPart = parts ! (length parts - 1);
                   lastDigits = slice_last lastPart 4
               in countryCode @ js '' *** *** '' @ lastDigits)
         else js ''*** *** ****'')"

section \<open>Escaping and text formatting\<close>

text \<open>The chain of five replacements \<open>escapeHtml\<close> applies to a string.\<close>

definition escape_str :: "jsstr \<Rightarrow> jsstr" where
  \<open>escape_str text =
     (let t1 = replaceAll_char text (ch CHR ''&'') (js ''&amp;'');
          t2 = replaceAll_char t1 (ch CHR ''<'') (js ''&lt;'');
          t3 = replaceAll_char t2 (ch CHR ''>'') (js ''&gt;'');
          t4 = replaceAll_char t3 (ch CHR ''"'') (js ''&quot;'')
      in replaceAll_char t4 (ch CHR 0x27) (js ''&#039;''))\<close>

fun escapeHtml :: "jsval \<Rightarrow> jsval" where
  "escapeHtml (JStr text) = JStr (escape_str text)"
| "escapeHtml text = text"

text \<open>The string branch of \<open>formatText\<close>: escape, bold, italic, line breaks.\<close>

definition format_str :: "jsstr \<Rightarrow> jsstr" where
  "format_str text =
     (let result = escape_str text;
          result = replace_delimited result (ch CHR ''*'') (js ''<strong>'') (js ''</strong>'');
          result = replace_delimited result (ch CHR ''_'') (js ''<em>'') (js ''</em>'');
          result = replaceAll_char result (ch CHR 0x0A) (js ''<br>'')
      in result)"

fun formatText :: "jsval \<Rightarrow> jsval" where
  "formatText (JStr text) = JStr (format_str text)"
| "formatText text = text"

section \<open>The document\<close>

text \<open>
  The containers of the document are typed as the data model has them. The leaves the
  script tests with \<open>typeof\<close> or converts to a string are arbitrary values. The two contact
  fields the environment overwrites are strings.
\<close>

record Contact =
  contact_email :: jsstr
  contact_phone :: jsstr
  contact_location :: jsval

record Row =
  row_title :: jsval
  row_type :: jsval
  row_value :: jsval

record Block =
  block_rows :: "Row list"

record Section =
  section_title :: jsval
  section_blocks :: "Block list"

record Document =
  data_name :: jsval
  data_contact :: Contact
  data_sections :: "Section list"

section \<open>Rendering\<close>

definition entry :: "jsval \<Rightarrow> jsval \<Rightarrow> error + jsstr" where
  \<open>entry label v =
     (let safeValue =
            (case v of
               JStr s \<Rightarrow> if \<not> includes_str s (js ''<'') then formatText v else v
             | _ \<Rightarrow> v)
      in case toString (escapeHtml label) of
           Inl e \<Rightarrow> Inl e
         | Inr labelText \<Rightarrow>
             (case toString safeValue of
                Inl e \<Rightarrow> Inl e
              | Inr valueText \<Rightarrow>
                  Inr (js ''<div class="entry">\<newline>      <div class="entry-label">''
                       @ labelText
                       @ js ''</div>\<newline>      <div class="entry-value">''
                       @ valueText
                       @ js ''</div>\<newline>    </div>'')))\<close>

text \<open>
  \<open>rowData.map((cell) => `<td>${formatText(cell)}</td>`).join("")\<close>: only an array has
  \<open>map\<close>; on any other value the call raises a \<open>TypeError\<close>.
\<close>

fun cells_html :: "jsval list \<Rightarrow> error + jsstr" where
  "cells_html [] = Inr []"
| "cells_html (cell # rest) =
     (case toString (formatText cell) of
        Inl e \<Rightarrow> Inl e
      | Inr cellText \<Rightarrow>
          (case cells_html rest of
             Inl e \<Rightarrow> Inl e
           | Inr tds \<Rightarrow> Inr (js ''<td>'' @ cellText @ js ''</td>'' @ tds)))"

fun render_cells :: "jsval \<Rightarrow> error + jsstr" where
  "render_cells (JArr cells) = cells_html cells"
| "render_cells rowData = Inl TypeError"

text \<open>
  The values \<open>for (const rowData of v)\<close> runs through. An array gives its elements and a
  string its characters (one value per code unit here: the loop body raises on each of
  them alike); any other value is not iterable.
\<close>

fun iterate :: "jsval \<Rightarrow> error + jsval list" where
  "iterate (JArr xs) = Inr xs"
| "iterate (JStr s) = Inr (map (\<lambda>c. JStr [c]) s)"
| "iterate v = Inl TypeError"

fun table_rows :: "jsstr \<Rightarrow> jsval list \<Rightarrow> error + jsstr" where
  "table_rows tableHtml [] = Inr tableHtml"
| "table_rows tableHtml (rowData # rest) =
     (case render_cells rowData of
        Inl e \<Rightarrow> Inl e
      | Inr tds \<Rightarrow> table_rows (tableHtml @ js ''<tr>'' @ tds @ js ''</tr>'') rest)"

definition renderTableRow :: "Row \<Rightarrow> error + jsstr" where
  \<open>renderTableRow row =
     (case iterate (row_value row) of
        Inl e \<Rightarrow> Inl e
      | Inr rowDatas \<Rightarrow>
          (case table_rows (js ''<table class="data-table">'') rowDatas of
             Inl e \<Rightarrow> Inl e
           | Inr tableHtml \<Rightarrow> entry (row_title row) (JStr (tableHtml @ js ''</table>''))))\<close>

definition renderRow :: "Row \<Rightarrow> error + jsstr" where
  "renderRow row =
     (if row_type row = JStr (js ''table'') then renderTableRow row
      else entry (row_title row) (row_value row))"

fun rows_loop :: "jsstr \<Rightarrow> Row list \<Rightarrow> error + jsstr" where
  "rows_loop html [] = Inr html"
| "rows_loop html (row # rest) =
     (case renderRow row of
        Inl e \<Rightarrow> Inl e
      | Inr r \<Rightarrow> rows_loop (html @ js ''    '' @ r @ js ''\<newline>'') rest)"

fun blocks_loop :: "jsstr \<Rightarrow> Block list \<Rightarrow> error + jsstr" where
  \<open>blocks_loop html [] = Inr html\<close>
| \<open>blocks_loop html (block # rest) =
     (case rows_loop (html @ js ''    <div class="entry-block">\<newline>'') (block_rows block) of
        Inl e \<Rightarrow> Inl e
      | Inr html' \<Rightarrow> blocks_loop (html' @ js ''    </div>\<newline>'') rest)\<close>

definition generateSection :: "Section \<Rightarrow> error + jsstr" where
  \<open>generateSection sec =
     (case toString (escapeHtml (section_title sec)) of
        Inl e \<Rightarrow> Inl e
      | Inr titleText \<Rightarrow>
          (case blocks_loop
                  (js ''<section>\<newline>  <h2>'' @ titleText
                     @ js ''</h2>\<newline>  <div class="section-content">\<newline>'')
                  (section_blocks sec) of
             Inl e \<Rightarrow> Inl e
           | Inr html \<Rightarrow> Inr (html @ js ''  </div>\<newline></section>\<newline>'')))\<close>

text \<open>\<open>JSON.stringify\<close> of an array of integers.\<close>

fun decimal :: "nat \<Rightarrow> jsstr" where
  "decimal n =
     (if n < 10 then [ch CHR ''0'' + of_nat n]
      else decimal (n div 10) @ [ch CHR ''0'' + of_nat (n mod 10)])"

definition stringify_int :: "int \<Rightarrow> jsstr" where
  "stringify_int i = (if i < 0 then ch CHR ''-'' # decimal (nat (- i)) else decimal (nat i))"

fun join_ints :: "int list \<Rightarrow> jsstr" where
  "join_ints [] = []"
| "join_ints [i] = stringify_int i"
| "join_ints (i # j # r) = stringify_int i @ ch CHR '','' # join_ints (j # r)"

definition JSON_stringify :: "int list \<Rightarrow> jsstr" where
  "JSON_stringify ns = js ''['' @ join_ints ns @ js '']''"

definition generateHeader :: "Document \<Rightarrow> error + jsstr" where
  \<open>generateHeader data =
     (let emailObf = JSON_stringify (obfuscate (contact_email (data_contact data)));
          phoneObf = JSON_stringify (obfuscate (contact_phone (data_contact data)));
          emailMasked = maskEmail (contact_email (data_contact data));
          phoneMasked = maskPhone (contact_phone (data_contact data))
      in case toString (escapeHtml (data_name data)) of
           Inl e \<Rightarrow> Inl e
         | Inr nameText \<Rightarrow>
             (case toString (escapeHtml (contact_location (data_contact data))) of
                Inl e \<Rightarrow> Inl e
              | Inr locationText \<Rightarrow>
                  Inr (js ''<header class="header">\<newline>  <h1>''
                       @ nameText
                       @ js ''</h1>\<newline>  <div class="contact-info">\<newline>    <span class="protected bold" data-o="''
                       @ escape_str emailObf
                       @ js ''" data-type="email" title="Click to reveal">''
                       @ escape_str emailMasked
                       @ js ''</span>\<newline>    <span class="protected" data-o="''
                       @ escape_str phoneObf
                       @ js ''" data-type="phone" title="Click to reveal">''
                       @ escape_str phoneMasked
                       @ js ''</span>\<newline>    <span>''
                       @ locationText
                       @ js ''</span>\<newline>  </div>\<newline></header>\<newline>'')))\<close>

fun sections_loop :: "jsstr \<Rightarrow> Section list \<Rightarrow> error + jsstr" where
  "sections_loop html [] = Inr html"
| "sections_loop html (sec # rest) =
     (case generateSection sec of
        Inl e \<Rightarrow> Inl e
      | Inr s \<Rightarrow> sections_loop (html @ s) rest)"

definition generateContent :: "Document \<Rightarrow> error + jsstr" where
  "generateContent data =
     (case generateHeader data of
        Inl e \<Rightarrow> Inl e
      | Inr header \<Rightarrow> sections_loop ([] @ header) (data_sections data))"

section \<open>The build script\<close>

text \<open>
  What the script finds when it starts: \<open>data.json\<close> read and parsed (\<open>None\<close> when reading
  or parsing raises), the two environment variables (\<open>None\<close> when unset),
  \<open>template.html\<close> (\<open>None\<close> when it cannot be read), whether the output directory exists
  and whether \<open>style.css\<close> can be copied. Writing is taken to succeed.
\<close>

record World =
  data_json :: "Document option"
  env_PII_EMAIL :: "jsstr option"
  env_PII_PHONE :: "jsstr option"
  template_html :: "jsstr option"
  docs_dir_exists :: bool
  style_css_readable :: bool

text \<open>What a run does to the outside, in order, and how it ends.\<close>

datatype effect =
    ConsoleError jsstr
  | ConsoleLog jsstr
  | MkdirDocs
  | WriteIndexHtml jsstr
  | CopyStyleCss

datatype status = Completed | Exit nat | Uncaught error

text \<open>
  The exit status of the process: an uncaught exception ends it with status 1, after the
  runtime has printed the exception on standard error.
\<close>

fun exit_status :: "status \<Rightarrow> nat" where
  "exit_status Completed = 0"
| "exit_status (Exit n) = n"
| "exit_status (Uncaught e) = 1"

fun is_output :: "effect \<Rightarrow> bool" where
  "is_output MkdirDocs = True"
| "is_output (WriteIndexHtml out) = True"
| "is_output CopyStyleCss = True"
| "is_output e = False"

fun is_console_error :: "effect \<Rightarrow> bool" where
  "is_console_error (ConsoleError m) = True"
| "is_console_error e = False"

definition reports_error :: "effect list \<times> status \<Rightarrow> bool" where
  "reports_error r =
     (case r of (effects, st) \<Rightarrow>
        list_ex is_console_error effects \<or> (case st of Uncaught e \<Rightarrow> True | _ \<Rightarrow> False))"

text \<open>\<open>!v\<close> for an environment variable: unset or the empty string.\<close>

fun falsy :: "jsstr option \<Rightarrow> bool" where
  "falsy None = True"
| "falsy (Some s) = (s = [])"

text \<open>Lines 23 and 24: the two assignments to \<open>data.contact\<close>.\<close>

definition set_pii :: "jsstr \<Rightarrow> jsstr \<Rightarrow> Document \<Rightarrow> Document" where
  "set_pii PII_EMAIL PII_PHONE data =
     data\<lparr>data_contact :=
       (data_contact data)\<lparr>contact_email := PII_EMAIL, contact_phone := PII_PHONE\<rparr>\<rparr>"

text \<open>Lines 163 and 164: the two substitutions into the template.\<close>

definition substitute :: "jsstr \<Rightarrow> jsstr \<Rightarrow> jsval \<Rightarrow> error + jsstr" where
  "substitute template content name =
     (let output = replace_str template (js ''<!-- CONTENT -->'') content
      in case toString (escapeHtml name) of
           Inl e \<Rightarrow> Inl e
         | Inr nameText \<Rightarrow> Inr (replace_str output (js ''{{NAME}}'') nameText))"

text \<open>Lines 26 to 182: everything after the contact fields are set.\<close>

definition generate :: "World \<Rightarrow> Document \<Rightarrow> effect list \<times> status" where
  "generate w data =
     (case template_html w of
        None \<Rightarrow> ([], Uncaught ReadError)
      | Some template \<Rightarrow>
          (case generateContent data of
             Inl e \<Rightarrow> ([], Uncaught e)
           | Inr content \<Rightarrow>
               (case substitute template content (data_name data) of
                  Inl e \<Rightarrow> ([], Uncaught e)
                | Inr output \<Rightarrow>
                    (let written =
                           (if \<not> docs_dir_exists w then [MkdirDocs] else [])
                             @ [WriteIndexHtml output,
                                ConsoleLog (js ''Generated: docs/index.html'')]
                     in if style_css_readable w
                        then (written @ [CopyStyleCss, ConsoleLog (js ''Copied: docs/style.css''),
                                ConsoleLog (js ''\<newline>Build complete!'')], Completed)
                        else (written, Uncaught ReadError)))))"

definition build :: "World \<Rightarrow> effect list \<times> status" where
  "build w =
     (case data_json w of
        None \<Rightarrow> ([], Uncaught ReadError)
      | Some data \<Rightarrow>
          (case (env_PII_EMAIL w, env_PII_PHONE w) of
             (Some PII_EMAIL, Some PII_PHONE) \<Rightarrow>
               if falsy (Some PII_EMAIL) \<or> falsy (Some PII_PHONE)
               then ([ConsoleError
                       (js ''Error: PII_EMAIL and PII_PHONE environment variables are required.'')],
                     Exit 1)
               else generate w (set_pii PII_EMAIL PII_PHONE data)
           | _ \<Rightarrow>
               ([ConsoleError
                  (js ''Error: PII_EMAIL and PII_PHONE environment variables are required.'')],
                Exit 1)))"

section \<open>Notions the properties are stated with\<close>

text \<open>The five HTML metacharacters.\<close>

definition is_metachar :: "cu \<Rightarrow> bool" where
  \<open>is_metachar c \<longleftrightarrow>
     c = ch CHR ''&'' \<or> c = ch CHR ''<'' \<or> c = ch CHR ''>'' \<or> c = ch CHR ''"'' \<or> c = ch CHR 0x27\<close>

text \<open>What one character becomes under \<open>escapeHtml\<close>.\<close>

definition escape_char :: "cu \<Rightarrow> jsstr" where
  \<open>escape_char c =
     (if c = ch CHR ''&'' then js ''&amp;''
      else if c = ch CHR ''<'' then js ''&lt;''
      else if c = ch CHR ''>'' then js ''&gt;''
      else if c = ch CHR ''"'' then js ''&quot;''
      else if c = ch CHR 0x27 then js ''&#039;''
      else [c])\<close>

text \<open>Every \<open>&\<close> of a text is the first character of one of the five entities.\<close>

definition entity_tails :: "jsstr list" where
  "entity_tails = [js ''amp;'', js ''lt;'', js ''gt;'', js ''quot;'', js ''#039;'']"

fun amp_starts_entity :: "jsstr \<Rightarrow> bool" where
  "amp_starts_entity [] = True"
| "amp_starts_entity (c # cs) =
     ((if c = ch CHR ''&'' then list_ex (\<lambda>e. prefix e cs) entity_tails else True)
      \<and> amp_starts_entity cs)"

text \<open>A value \<open>entry\<close> takes for HTML made before: a string with a \<open><\<close> in it.\<close>

definition preformatted :: "jsval \<Rightarrow> bool" where
  "preformatted v = (case v of JStr s \<Rightarrow> ch CHR ''<'' \<in> set s | _ \<Rightarrow> False)"

text \<open>The fixed markup of a labeled entry around the text of a label and of a value.\<close>

definition labeled_entry :: "jsstr \<Rightarrow> jsstr \<Rightarrow> jsstr" where
  \<open>labeled_entry labelText valueText =
     js ''<div class="entry">\<newline>      <div class="entry-label">'' @ labelText
       @ js ''</div>\<newline>      <div class="entry-value">'' @ valueText
       @ js ''</div>\<newline>    </div>''\<close>

text \<open>
  The components of a phone number, as the specification words them: the maximal runs of
  characters that are not white space.
\<close>

function tokens :: "jsstr \<Rightarrow> jsstr list" where
  "tokens s =
     (case dropWhile is_ws s of
        [] \<Rightarrow> []
      | c # cs \<Rightarrow>
          (c # takeWhile (\<lambda>x. \<not> is_ws x) cs) # tokens (dropWhile (\<lambda>x. \<not> is_ws x) cs))"
  by pat_completeness auto
termination
proof (relation "measure length")
  show "wf (measure (length :: jsstr \<Rightarrow> nat))"
    by simp
next
  fix s :: jsstr and c :: cu and cs :: jsstr
  assume d: "dropWhile is_ws s = c # cs"
  have "length (dropWhile (\<lambda>x. \<not> is_ws x) cs) \<le> length cs"
    by (rule length_dropWhile_le)
  also have "length cs < length (dropWhile is_ws s)"
    by (simp add: d)
  also have "\<dots> \<le> length s"
    by (rule length_dropWhile_le)
  finally show "(dropWhile (\<lambda>x. \<not> is_ws x) cs, s) \<in> measure length"
    by simp
qed

declare tokens.simps [simp del]

text \<open>Components joined by one separator character between neighbours.\<close>

fun unwords :: "jsstr list \<Rightarrow> cu \<Rightarrow> jsstr" where
  "unwords [] d = []"
| "unwords [t] d = t"
| "unwords (t # u # ts) d = t @ d # unwords (u # ts) d"

text \<open>
  The single space \<open>replace_ws_runs\<close> leaves at the start of a text that starts with white
  space, and at the end of a text that has a component and ends with white space.
\<close>

definition lead :: "jsstr \<Rightarrow> jsstr" where
  "lead s = (if s \<noteq> [] \<and> is_ws (hd s) then [ch CHR '' ''] else [])"

definition trail :: "jsstr \<Rightarrow> jsstr" where
  "trail s = (if tokens s \<noteq> [] \<and> is_ws (last s) then [ch CHR '' ''] else [])"

text \<open>Example inputs.\<close>

definition example_row :: "jsstr \<Rightarrow> Row" where
  "example_row v = \<lparr>row_title = JStr (js ''Q&A''), row_type = JStr (js ''text''), row_value = JStr v\<rparr>"

definition example_doc :: "jsstr \<Rightarrow> Document" where
  "example_doc name =
     \<lparr>data_name = JStr name,
      data_contact = \<lparr>contact_email = js ''old@x.y'', contact_phone = js ''0 0'',
        contact_location = JStr (js ''Rome'')\<rparr>,
      data_sections = []\<rparr>"

definition example_world :: "jsstr \<Rightarrow> jsstr option \<Rightarrow> jsstr option \<Rightarrow> jsstr \<Rightarrow> World" where
  "example_world template e p name =
     \<lparr>data_json = Some (example_doc name), env_PII_EMAIL = e, env_PII_PHONE = p,
      template_html = Some template, docs_dir_exists = True, style_css_readable = True\<rparr>"


text \<open>The two markers of the template.\<close>

abbreviation content_marker :: jsstr where
  "content_marker \<equiv> js ''<!-- CONTENT -->''"

abbreviation name_marker :: jsstr where
  "name_marker \<equiv> js ''{{NAME}}''"

text \<open>The message of line 19.\<close>

definition pii_error :: effect where
  "pii_error =
     ConsoleError (js ''Error: PII_EMAIL and PII_PHONE environment variables are required.'')"

section \<open>Properties of the obfuscation\<close>

lemma decode_obfuscate: "decode (obfuscate s) = s"
  by (induction s) (simp_all add: decode_def obfuscate_def)

text \<open>
  Claim C1. For every contact string of printable ASCII characters, subtracting 7 from
  each integer of \<open>obfuscate s\<close> and converting each result back to a character gives
  \<open>s\<close> again.
\<close>

theorem obfuscate_roundtrip:
  "list_all printable_ascii s \<Longrightarrow> decode (obfuscate s) = s"
  by (rule decode_obfuscate)

theorem obfuscate_roundtrip_witness:
  "list_all printable_ascii (js ''jane@example.com'')
   \<and> obfuscate (js ''jane@example.com'')
       = [113, 104, 117, 108, 71, 108, 127, 104, 116, 119, 115, 108, 53, 106, 118, 116]
   \<and> decode (obfuscate (js ''jane@example.com'')) = js ''jane@example.com''"
proof -
  have p: "list_all printable_ascii (js ''jane@example.com'')"
    by (simp add: printable_ascii_def)
  have o: "obfuscate (js ''jane@example.com'')
       = [113, 104, 117, 108, 71, 108, 127, 104, 116, 119, 115, 108, 53, 106, 118, 116]"
    by (simp add: obfuscate_def)
  from p o obfuscate_roundtrip [OF p] show ?thesis
    by blast
qed

section \<open>Properties of the masks\<close>

lemma indexOf_char:
  "indexOf s [c] = (if c \<in> set s then Some (length (takeWhile (\<lambda>x. x \<noteq> c) s)) else None)"
  by (induction s) auto

text \<open>
  Claim C6, as the code has it. \<open>maskEmail\<close> tests \<open>atIndex > 0\<close>: the text from the first
  \<open>@\<close> on is kept, behind the mask \<open>***\<close>, when the string has an \<open>@\<close> and does not start
  with it; a string without \<open>@\<close>, and one that starts with \<open>@\<close>, gives the bare \<open>***\<close>.
  The two examples of the specification hold.
\<close>

theorem maskEmail_from_at:
  "maskEmail email =
     (if ch CHR ''@'' \<in> set email \<and> hd email \<noteq> ch CHR ''@''
      then js ''***'' @ dropWhile (\<lambda>c. c \<noteq> ch CHR ''@'') email
      else js ''***'')
   \<and> maskEmail (js ''jane@example.com'') = js ''***@example.com''
   \<and> maskEmail (js ''invalid'') = js ''***''"
proof -
  have "maskEmail email =
     (if ch CHR ''@'' \<in> set email \<and> hd email \<noteq> ch CHR ''@''
      then js ''***'' @ dropWhile (\<lambda>c. c \<noteq> ch CHR ''@'') email
      else js ''***'')"
  proof (cases email)
    case Nil
    then show ?thesis by (simp add: maskEmail_def)
  next
    case (Cons a as)
    then show ?thesis
      by (auto simp: maskEmail_def indexOf_char dropWhile_eq_drop simp del: indexOf.simps)
  qed
  moreover have "maskEmail (js ''jane@example.com'') = js ''***@example.com''"
    by (simp add: maskEmail_def)
  moreover have "maskEmail (js ''invalid'') = js ''***''"
    by (simp add: maskEmail_def)
  ultimately show ?thesis
    by blast
qed

theorem maskEmail_from_at_witness:
  "maskEmail (js ''a.b@c.org'') = js ''***@c.org''"
  using maskEmail_from_at [of "js ''a.b@c.org''"] by simp

text \<open>
  The claim as the specification states it (the mask is followed by the text from \<open>@\<close> on
  whenever an \<open>@\<close> is found) fails for a string that starts with \<open>@\<close>.
\<close>

theorem maskEmail_leading_at_counterexample:
  "ch CHR ''@'' \<in> set (js ''@example.com'')
   \<and> maskEmail (js ''@example.com'') = js ''***''
   \<and> maskEmail (js ''@example.com'') \<noteq> js ''***@example.com''"
  by (simp add: maskEmail_def)

section \<open>Properties of the escaping\<close>

lemma replaceAll_char_append:
  "replaceAll_char (a @ b) c r = replaceAll_char a c r @ replaceAll_char b c r"
  by (induction a) simp_all

lemma replaceAll_char_absent: "c \<notin> set s \<Longrightarrow> replaceAll_char s c r = s"
  by (induction s) auto

lemma escape_str_Nil: "escape_str [] = []"
  by (simp add: escape_str_def)

text \<open>
  The five replacements run one after the other over the whole text; none of them
  touches what an earlier one has put in, so the chain escapes character by character.
\<close>

lemma escape_str_Cons: "escape_str (c # cs) = escape_char c @ escape_str cs"
  unfolding escape_str_def escape_char_def Let_def
  by (simp add: replaceAll_char_append)

lemma escape_str_concat: "escape_str s = concat (map escape_char s)"
  by (induction s) (simp_all add: escape_str_Nil escape_str_Cons)

lemma escape_str_no_raw:
  \<open>list_all (\<lambda>c. c \<noteq> ch CHR ''<'' \<and> c \<noteq> ch CHR ''>'' \<and> c \<noteq> ch CHR ''"'' \<and> c \<noteq> ch CHR 0x27)
     (escape_str s)\<close>
  by (induction s) (simp_all add: escape_str_Nil escape_str_Cons escape_char_def)

lemma escape_str_amp: "amp_starts_entity (escape_str s)"
  by (induction s)
    (simp_all add: escape_str_Nil escape_str_Cons escape_char_def entity_tails_def)

lemma escape_str_keeps_out:
  "c \<notin> set s \<Longrightarrow> c \<notin> set (js ''&amp;lt;gt;quot;#039;'') \<Longrightarrow> c \<notin> set (escape_str s)"
  by (induction s) (auto simp: escape_str_Nil escape_str_Cons escape_char_def)

text \<open>
  Claim C2. For every string with at least one of the five metacharacters, the output of
  \<open>escapeHtml\<close> has none of them raw, that is, unescaped: it has no \<open><\<close>, \<open>>\<close>, double
  quote or apostrophe at all, and every \<open>&\<close> in it is the first character of one of the
  entities \<open>&amp;\<close>, \<open>&lt;\<close>, \<open>&gt;\<close>, \<open>&quot;\<close>, \<open>&#039;\<close> that the escaping writes.
\<close>

theorem escapeHtml_output:
  \<open>list_ex is_metachar s \<Longrightarrow>
     escapeHtml (JStr s) = JStr (escape_str s)
     \<and> list_all (\<lambda>c. c \<noteq> ch CHR ''<'' \<and> c \<noteq> ch CHR ''>'' \<and> c \<noteq> ch CHR ''"'' \<and> c \<noteq> ch CHR 0x27)
          (escape_str s)
     \<and> amp_starts_entity (escape_str s)\<close>
  using escape_str_no_raw [of s] escape_str_amp [of s] by simp

theorem escapeHtml_output_witness:
  \<open>list_ex is_metachar (js ''<b>"R&D"</b>'')
   \<and> escapeHtml (JStr (js ''<b>"R&D"</b>'')) = JStr (js ''&lt;b&gt;&quot;R&amp;D&quot;&lt;/b&gt;'')
   \<and> list_all (\<lambda>c. c \<noteq> ch CHR ''<'' \<and> c \<noteq> ch CHR ''>'' \<and> c \<noteq> ch CHR ''"'' \<and> c \<noteq> ch CHR 0x27)
        (js ''&lt;b&gt;&quot;R&amp;D&quot;&lt;/b&gt;'')
   \<and> amp_starts_entity (js ''&lt;b&gt;&quot;R&amp;D&quot;&lt;/b&gt;'')\<close>
proof -
  have h: \<open>list_ex is_metachar (js ''<b>"R&D"</b>'')\<close>
    by (simp add: is_metachar_def)
  have e: \<open>escape_str (js ''<b>"R&D"</b>'') = js ''&lt;b&gt;&quot;R&amp;D&quot;&lt;/b&gt;''\<close>
    by (simp add: escape_str_def)
  from escapeHtml_output [OF h] h show ?thesis
    unfolding e by blast
qed

section \<open>Properties of the formatting\<close>

lemma replace_delimited_absent: "d \<notin> set s \<Longrightarrow> replace_delimited s d opn cls = s"
  by (induction s) auto

lemma format_str_plain:
  assumes "ch CHR ''*'' \<notin> set s" "ch CHR ''_'' \<notin> set s" "ch CHR 0x0A \<notin> set s"
  shows "format_str s = escape_str s"
proof -
  have a: "ch CHR ''*'' \<notin> set (escape_str s)"
    using assms(1) by (rule escape_str_keeps_out) simp
  have b: "ch CHR ''_'' \<notin> set (escape_str s)"
    using assms(2) by (rule escape_str_keeps_out) simp
  have c: "ch CHR 0x0A \<notin> set (escape_str s)"
    using assms(3) by (rule escape_str_keeps_out) simp
  show ?thesis
    unfolding format_str_def Let_def
    by (simp only: replace_delimited_absent [OF a] replace_delimited_absent [OF b]
        replaceAll_char_absent [OF c])
qed

text \<open>
  Claim C3, as the code has it. For every string with no \<open><\<close>, no \<open>_\<close>, no \<open>*\<close> and no
  newline, \<open>formatText\<close> gives what \<open>escapeHtml\<close> gives.
\<close>

theorem formatText_plain:
  assumes "ch CHR ''<'' \<notin> set s" and "ch CHR ''_'' \<notin> set s" and "ch CHR ''*'' \<notin> set s"
    and "ch CHR 0x0A \<notin> set s"
  shows "formatText (JStr s) = escapeHtml (JStr s)"
  using assms by (simp add: format_str_plain)

theorem formatText_plain_witness:
  \<open>ch CHR ''<'' \<notin> set (js ''R&D "lab"'') \<and> ch CHR ''_'' \<notin> set (js ''R&D "lab"'')
   \<and> ch CHR ''*'' \<notin> set (js ''R&D "lab"'') \<and> ch CHR 0x0A \<notin> set (js ''R&D "lab"'')
   \<and> formatText (JStr (js ''R&D "lab"'')) = escapeHtml (JStr (js ''R&D "lab"''))
   \<and> escapeHtml (JStr (js ''R&D "lab"'')) = JStr (js ''R&amp;D &quot;lab&quot;'')\<close>
proof -
  have h: \<open>ch CHR ''<'' \<notin> set (js ''R&D "lab"'')\<close> \<open>ch CHR ''_'' \<notin> set (js ''R&D "lab"'')\<close>
    \<open>ch CHR ''*'' \<notin> set (js ''R&D "lab"'')\<close> \<open>ch CHR 0x0A \<notin> set (js ''R&D "lab"'')\<close>
    by simp_all
  have e: \<open>escapeHtml (JStr (js ''R&D "lab"'')) = JStr (js ''R&amp;D &quot;lab&quot;'')\<close>
    by (simp add: escape_str_def)
  from formatText_plain [OF h] h e show ?thesis
    by blast
qed

text \<open>
  The claim as the specification states it (no \<open><\<close>, \<open>_\<close>, \<open>*\<close> is enough) fails for a text
  with a newline, which \<open>formatText\<close> turns into the line-break marker.
\<close>

theorem formatText_newline_counterexample:
  "ch CHR ''<'' \<notin> set (js ''a\<newline>b'') \<and> ch CHR ''_'' \<notin> set (js ''a\<newline>b'')
   \<and> ch CHR ''*'' \<notin> set (js ''a\<newline>b'')
   \<and> formatText (JStr (js ''a\<newline>b'')) = JStr (js ''a<br>b'')
   \<and> escapeHtml (JStr (js ''a\<newline>b'')) = JStr (js ''a\<newline>b'')
   \<and> formatText (JStr (js ''a\<newline>b'')) \<noteq> escapeHtml (JStr (js ''a\<newline>b''))"
  by (simp add: format_str_def escape_str_def)








section \<open>Properties of the phone mask\<close>

lemma tokens_Nil: "tokens [] = []"
  by (simp add: tokens.simps)

lemma tokens_ws: "is_ws c \<Longrightarrow> tokens (c # cs) = tokens cs"
  by (simp add: tokens.simps [of "c # cs"] tokens.simps [of cs])

lemma tokens_nws:
  "\<not> is_ws c \<Longrightarrow>
     tokens (c # cs) =
       (c # takeWhile (\<lambda>x. \<not> is_ws x) cs) # tokens (dropWhile (\<lambda>x. \<not> is_ws x) cs)"
  by (simp add: tokens.simps [of "c # cs"])

lemma tokens_nws_end: "\<not> is_ws c \<Longrightarrow> tokens [c] = [[c]]"
  by (simp add: tokens_nws tokens_Nil)

lemma tokens_nws_ws:
  "\<not> is_ws c \<Longrightarrow> is_ws c' \<Longrightarrow> tokens (c # c' # cs) = [c] # tokens (c' # cs)"
  by (simp add: tokens_nws)

lemma tokens_nws_nws:
  "\<not> is_ws c \<Longrightarrow> \<not> is_ws c' \<Longrightarrow>
     \<exists>t ts. tokens (c' # cs) = t # ts \<and> tokens (c # c' # cs) = (c # t) # ts"
  by (simp add: tokens_nws)

lemma tokens_empty_iff: "tokens s = [] \<longleftrightarrow> list_all is_ws s"
proof (induction s)
  case Nil
  show ?case by (simp add: tokens_Nil)
next
  case (Cons c cs)
  show ?case
  proof (cases "is_ws c")
    case True
    with Cons show ?thesis by (simp add: tokens_ws)
  next
    case False
    then show ?thesis by (simp add: tokens_nws)
  qed
qed

lemma tokens_wf: "t \<in> set (tokens s) \<Longrightarrow> t \<noteq> [] \<and> list_all (\<lambda>x. \<not> is_ws x) t"
proof (induction s arbitrary: t rule: length_induct)
  case (1 s)
  show ?case
  proof (cases "dropWhile is_ws s")
    case Nil
    with 1 show ?thesis
      by (simp add: tokens.simps [of s])
  next
    case (Cons c cs)
    have len: "length (dropWhile (\<lambda>x. \<not> is_ws x) cs) < length s"
    proof -
      have "length (dropWhile (\<lambda>x. \<not> is_ws x) cs) \<le> length cs"
        by (rule length_dropWhile_le)
      also have "length cs < length (dropWhile is_ws s)"
        by (simp add: Cons)
      also have "\<dots> \<le> length s"
        by (rule length_dropWhile_le)
      finally show ?thesis .
    qed
    have c: "\<not> is_ws c"
      using Cons by (metis hd_dropWhile list.sel(1) list.distinct(1))
    from 1(2) Cons consider "t = c # takeWhile (\<lambda>x. \<not> is_ws x) cs"
      | "t \<in> set (tokens (dropWhile (\<lambda>x. \<not> is_ws x) cs))"
      by (auto simp: tokens.simps [of s])
    then show ?thesis
    proof cases
      case 1
      then show ?thesis
        using c by (auto simp: list_all_iff dest: set_takeWhileD)
    next
      case 2
      with 1(1) len show ?thesis
        by blast
    qed
  qed
qed

lemma is_ws_space: "is_ws (ch CHR '' '')"
  by (simp add: is_ws_def)

lemma replace_ws_runs_ws:
  "is_ws c \<Longrightarrow>
     replace_ws_runs (c # cs) =
       (if cs \<noteq> [] \<and> is_ws (hd cs) then replace_ws_runs cs
        else ch CHR '' '' # replace_ws_runs cs)"
  by (cases cs) simp_all

lemma unwords_Cons_Cons: "unwords ((c # t) # ts) d = c # unwords (t # ts) d"
  by (cases ts) simp_all

lemma unwords_Cons: "ts \<noteq> [] \<Longrightarrow> unwords (t # ts) d = t @ d # unwords ts d"
  by (cases ts) simp_all

lemma trail_Cons: "cs \<noteq> [] \<Longrightarrow> tokens (c # cs) \<noteq> [] \<Longrightarrow> tokens cs \<noteq> [] \<Longrightarrow>
    trail (c # cs) = trail cs"
  by (simp add: trail_def)

lemma replace_ws_runs_shape:
  "replace_ws_runs s = lead s @ unwords (tokens s) (ch CHR '' '') @ trail s"
proof (induction s)
  case Nil
  show ?case
    by (simp add: lead_def trail_def tokens_Nil)
next
  case (Cons c cs)
  show ?case
  proof (cases "is_ws c")
    case True
    note c = True
    have tk: "tokens (c # cs) = tokens cs"
      using c by (rule tokens_ws)
    have tr: "trail (c # cs) = trail cs"
      using c by (cases "cs = []") (simp_all add: trail_def tokens_ws tokens_Nil)
    show ?thesis
    proof (cases "cs \<noteq> [] \<and> is_ws (hd cs)")
      case True
      then have "replace_ws_runs (c # cs) = replace_ws_runs cs"
        using c by (simp add: replace_ws_runs_ws del: replace_ws_runs.simps)
      also have "\<dots> = lead cs @ unwords (tokens cs) (ch CHR '' '') @ trail cs"
        by (rule Cons.IH)
      also have "lead cs = lead (c # cs)"
        using True c by (simp add: lead_def)
      finally show ?thesis
        by (simp only: tk tr)
    next
      case False
      then have "replace_ws_runs (c # cs) = ch CHR '' '' # replace_ws_runs cs"
        using c by (simp add: replace_ws_runs_ws del: replace_ws_runs.simps)
      also have "replace_ws_runs cs = lead cs @ unwords (tokens cs) (ch CHR '' '') @ trail cs"
        by (rule Cons.IH)
      also have "lead cs = []"
        using False by (auto simp: lead_def)
      finally show ?thesis
        using c by (simp add: tk tr lead_def)
    qed
  next
    case False
    note c = False
    have r: "replace_ws_runs (c # cs)
        = c # lead cs @ unwords (tokens cs) (ch CHR '' '') @ trail cs"
      using c Cons.IH by simp
    have l: "lead (c # cs) = []"
      using c by (simp add: lead_def)
    show ?thesis
    proof (cases cs)
      case Nil
      then show ?thesis
        using c by (simp add: lead_def trail_def tokens_Nil tokens_nws_end)
    next
      case (Cons c' cs')
      show ?thesis
      proof (cases "is_ws c'")
        case True
        have tk: "tokens (c # cs) = [c] # tokens cs"
          unfolding Cons using c True by (rule tokens_nws_ws)
        have lc: "lead cs = [ch CHR '' '']"
          using True Cons by (simp add: lead_def)
        show ?thesis
        proof (cases "tokens cs = []")
          case True
          then have "list_all is_ws cs"
            by (simp add: tokens_empty_iff)
          then have "is_ws (last (c # cs))"
            using Cons by (simp add: list_all_iff)
          then have "trail (c # cs) = [ch CHR '' '']"
            by (simp add: trail_def tk)
          moreover have "trail cs = []"
            using True by (simp add: trail_def)
          ultimately show ?thesis
            unfolding r l lc tk using True by simp
        next
          case False
          have ne: "cs \<noteq> []"
            by (simp add: Cons)
          have "tokens (c # cs) \<noteq> []"
            by (simp only: tk) simp
          with ne have "trail (c # cs) = trail cs"
            using False by (rule trail_Cons)
          then show ?thesis
            unfolding r l lc tk using False by (simp add: unwords_Cons)
        qed
      next
        case False
        from tokens_nws_nws [OF c False, of cs'] obtain t ts
          where t: "tokens cs = t # ts" "tokens (c # cs) = (c # t) # ts"
          unfolding Cons by blast
        have lc: "lead cs = []"
          using False Cons by (simp add: lead_def)
        have ne: "cs \<noteq> []"
          by (simp add: Cons)
        have "tokens (c # cs) \<noteq> []" "tokens cs \<noteq> []"
          by (simp_all only: t) simp_all
        with ne have "trail (c # cs) = trail cs"
          by (rule trail_Cons)
        then show ?thesis
          unfolding r l lc t by (simp add: unwords_Cons_Cons)
      qed
    qed
  qed
qed


lemma trim_all_ws:
  assumes "list_all is_ws a"
  shows "trim a = []"
proof -
  have d: "dropWhile is_ws a = []"
    using assms by (simp add: list_all_iff)
  show ?thesis
    unfolding trim_def d by simp
qed

lemma trim_core:
  assumes "list_all is_ws a" and "list_all is_ws b" and "u \<noteq> []"
    and "\<not> is_ws (hd u)" and "\<not> is_ws (last u)"
  shows "trim (a @ u @ b) = u"
proof -
  have "dropWhile is_ws (a @ u @ b) = dropWhile is_ws (u @ b)"
    using assms(1) by (intro dropWhile_append2) (simp add: list_all_iff)
  also have "\<dots> = u @ b"
    using assms(3,4) by (cases u) simp_all
  finally have 1: "dropWhile is_ws (a @ u @ b) = u @ b" .
  have "dropWhile is_ws (rev b @ rev u) = dropWhile is_ws (rev u)"
    using assms(2) by (intro dropWhile_append2) (simp add: list_all_iff)
  then have "dropWhile is_ws (rev (u @ b)) = dropWhile is_ws (rev u)"
    by simp
  also have "\<dots> = rev u"
    using assms(3,5) by (cases u rule: rev_cases) simp_all
  finally show ?thesis
    by (simp add: trim_def 1)
qed

lemma unwords_ends:
  "ts \<noteq> [] \<Longrightarrow> \<forall>t\<in>set ts. t \<noteq> [] \<Longrightarrow>
     unwords ts d \<noteq> [] \<and> hd (unwords ts d) = hd (hd ts) \<and> last (unwords ts d) = last (last ts)"
  by (induction ts d rule: unwords.induct) auto

lemma split_str_not_Nil: "split_str s d \<noteq> []"
  by (induction s) (auto split: list.splits)

lemma split_str_no_sep: "d \<notin> set t \<Longrightarrow> split_str t d = [t]"
  by (induction t) auto

lemma split_str_append_sep: "d \<notin> set t \<Longrightarrow> split_str (t @ d # r) d = t # split_str r d"
  by (induction t) (auto split: list.splits)

lemma split_str_unwords:
  "ts \<noteq> [] \<Longrightarrow> \<forall>t\<in>set ts. d \<notin> set t \<Longrightarrow> split_str (unwords ts d) d = ts"
  by (induction ts d rule: unwords.induct) (simp_all add: split_str_no_sep split_str_append_sep)

lemma lead_ws: "list_all is_ws (lead s)"
  using is_ws_space by (simp add: lead_def)

lemma trail_ws: "list_all is_ws (trail s)"
  using is_ws_space by (simp add: trail_def)

lemma trim_replace_ws_runs: "trim (replace_ws_runs s) = unwords (tokens s) (ch CHR '' '')"
proof (cases "tokens s = []")
  case True
  then have "trail s = []"
    by (simp add: trail_def)
  then have "replace_ws_runs s = lead s"
    using True by (simp add: replace_ws_runs_shape [of s])
  then show ?thesis
    using True lead_ws [of s] by (simp add: trim_all_ws)
next
  case False
  let ?u = "unwords (tokens s) (ch CHR '' '')"
  have ne: "\<forall>t\<in>set (tokens s). t \<noteq> []"
    using tokens_wf by blast
  note e = unwords_ends [OF False ne, of "ch CHR '' ''"]
  have h: "hd (tokens s) \<in> set (tokens s)" and l: "last (tokens s) \<in> set (tokens s)"
    using False by simp_all
  have "\<not> is_ws (hd (hd (tokens s)))"
    using tokens_wf [OF h] by (cases "hd (tokens s)") simp_all
  moreover have "\<not> is_ws (last (last (tokens s)))"
    using tokens_wf [OF l] by (cases "last (tokens s)" rule: rev_cases) simp_all
  ultimately have "trim (lead s @ ?u @ trail s) = ?u"
    using e by (intro trim_core lead_ws trail_ws) simp_all
  then show ?thesis
    by (simp only: replace_ws_runs_shape [of s])
qed

lemma parts_tokens:
  "split_str (trim (replace_ws_runs s)) (ch CHR '' '')
     = (if tokens s = [] then [[]] else tokens s)"
proof (cases "tokens s = []")
  case True
  then show ?thesis
    by (simp add: trim_replace_ws_runs)
next
  case False
  have "\<forall>t\<in>set (tokens s). ch CHR '' '' \<notin> set t"
  proof
    fix t
    assume "t \<in> set (tokens s)"
    then have "list_all (\<lambda>x. \<not> is_ws x) t"
      using tokens_wf by blast
    then show "ch CHR '' '' \<notin> set t"
      using is_ws_space by (auto simp: list_all_iff)
  qed
  with False have "split_str (unwords (tokens s) (ch CHR '' '')) (ch CHR '' '') = tokens s"
    by (rule split_str_unwords)
  with False show ?thesis
    by (simp add: trim_replace_ws_runs)
qed

text \<open>
  Claim C7. \<open>maskPhone\<close> splits the phone number on white space. With at least two
  components it gives the first component, the literal \<open>*** ***\<close> and the last four
  characters of the final component, separated by single spaces: the final component
  without all but its last four characters (all of it when it has at most four). With
  fewer than two components it gives \<open>*** *** ****\<close>. The two examples of the
  specification hold.
\<close>

theorem maskPhone_tokens:
  "maskPhone phone =
     (if length (tokens phone) \<ge> 2
      then hd (tokens phone) @ js '' *** *** ''
             @ drop (length (last (tokens phone)) - 4) (last (tokens phone))
      else js ''*** *** ****'')
   \<and> maskPhone (js ''+39 345 123 7212'') = js ''+39 *** *** 7212''
   \<and> maskPhone (js ''12345'') = js ''*** *** ****''"
proof -
  have "maskPhone phone =
     (if length (tokens phone) \<ge> 2
      then hd (tokens phone) @ js '' *** *** ''
             @ drop (length (last (tokens phone)) - 4) (last (tokens phone))
      else js ''*** *** ****'')"
  proof (cases "tokens phone = []")
    case True
    then show ?thesis
      unfolding maskPhone_def Let_def parts_tokens by simp
  next
    case False
    then show ?thesis
      unfolding maskPhone_def Let_def parts_tokens slice_last_def
      by (simp add: hd_conv_nth last_conv_nth)
  qed
  moreover have "maskPhone (js ''+39 345 123 7212'') = js ''+39 *** *** 7212''"
    by (simp add: maskPhone_def trim_def is_ws_def slice_last_def)
  moreover have "maskPhone (js ''12345'') = js ''*** *** ****''"
    by (simp add: maskPhone_def trim_def is_ws_def slice_last_def)
  ultimately show ?thesis
    by blast
qed

theorem maskPhone_tokens_witness:
  "tokens (js '' +39  345\<newline>1237212 '') = [js ''+39'', js ''345'', js ''1237212'']
   \<and> maskPhone (js '' +39  345\<newline>1237212 '') = js ''+39 *** *** 7212''
   \<and> tokens (js ''+1 5550199'') = [js ''+1'', js ''5550199'']
   \<and> maskPhone (js ''+1 5550199'') = js ''+1 *** *** 0199''
   \<and> tokens (js ''+1 99'') = [js ''+1'', js ''99'']
   \<and> maskPhone (js ''+1 99'') = js ''+1 *** *** 99''"
proof -
  have a: "tokens (js '' +39  345\<newline>1237212 '') = [js ''+39'', js ''345'', js ''1237212'']"
    by (simp add: tokens_ws tokens_nws tokens_Nil is_ws_def)
  have b: "tokens (js ''+1 5550199'') = [js ''+1'', js ''5550199'']"
    by (simp add: tokens_ws tokens_nws tokens_Nil is_ws_def)
  have c: "tokens (js ''+1 99'') = [js ''+1'', js ''99'']"
    by (simp add: tokens_ws tokens_nws tokens_Nil is_ws_def)
  from maskPhone_tokens [of "js '' +39  345\<newline>1237212 ''"]
  have a': "maskPhone (js '' +39  345\<newline>1237212 '') = js ''+39 *** *** 7212''"
    unfolding a by simp
  from maskPhone_tokens [of "js ''+1 5550199''"]
  have b': "maskPhone (js ''+1 5550199'') = js ''+1 *** *** 0199''"
    unfolding b by simp
  from maskPhone_tokens [of "js ''+1 99''"]
  have c': "maskPhone (js ''+1 99'') = js ''+1 *** *** 99''"
    unfolding c by simp
  from a b c a' b' c' show ?thesis
    by blast
qed

section \<open>Properties of the row renderer\<close>

lemma includes_str_char: "includes_str s [c] \<longleftrightarrow> c \<in> set s"
  by (simp add: includes_str_def indexOf_char del: indexOf.simps)

lemma formatText_not_string: "(\<And>s. v \<noteq> JStr s) \<Longrightarrow> formatText v = v"
  by (cases v) auto

lemma safeValue_cases:
  "(case v of
      JStr s \<Rightarrow> if \<not> includes_str s (js ''<'') then formatText v else v
    | _ \<Rightarrow> v) = (if preformatted v then v else formatText v)"
  by (cases v) (simp_all add: preformatted_def includes_str_char del: indexOf.simps)

lemma entry_eq:
  "entry label v =
     (case toString (escapeHtml label) of
        Inl e \<Rightarrow> Inl e
      | Inr labelText \<Rightarrow>
          (case toString (if preformatted v then v else formatText v) of
             Inl e \<Rightarrow> Inl e
           | Inr valueText \<Rightarrow> Inr (labeled_entry labelText valueText)))"
  unfolding entry_def Let_def safeValue_cases labeled_entry_def
  by (simp split: sum.splits)

text \<open>
  Claim C5. For every row whose type is not \<open>table\<close>, \<open>renderRow\<close> gives the labeled
  entry of the row's title and value: the label is the escaped title; the value is the
  row's value unchanged when it is a string with a \<open><\<close> in it, and the row's value passed
  through \<open>formatText\<close> otherwise. Title and value are strings in the data model, and
  the entry is their text in the fixed markup. For a value of another kind the entry
  holds its string conversion, and where that conversion raises, \<open>renderRow\<close> raises.
\<close>

theorem renderRow_non_table:
  "row_type row \<noteq> JStr (js ''table'') \<Longrightarrow>
     renderRow row =
       (case toString (escapeHtml (row_title row)) of
          Inl e \<Rightarrow> Inl e
        | Inr labelText \<Rightarrow>
            (case toString (if preformatted (row_value row) then row_value row
                            else formatText (row_value row)) of
               Inl e \<Rightarrow> Inl e
             | Inr valueText \<Rightarrow> Inr (labeled_entry labelText valueText)))
     \<and> (row_title row = JStr title \<and> row_value row = JStr s \<longrightarrow>
          renderRow row =
            Inr (labeled_entry (escape_str title)
                   (if ch CHR ''<'' \<in> set s then s else format_str s)))"
proof -
  assume t: "row_type row \<noteq> JStr (js ''table'')"
  then have r: "renderRow row = entry (row_title row) (row_value row)"
    by (simp add: renderRow_def)
  show ?thesis
    unfolding r entry_eq by (simp add: preformatted_def)
qed

theorem renderRow_non_table_witness:
  \<open>row_type (example_row (js ''*Go*'')) \<noteq> JStr (js ''table'')
   \<and> renderRow (example_row (js ''*Go*'')) =
       Inr (js ''<div class="entry">\<newline>      <div class="entry-label">Q&amp;A</div>\<newline>      <div class="entry-value"><strong>Go</strong></div>\<newline>    </div>'')
   \<and> row_type (example_row (js ''<i>*Go*</i>'')) \<noteq> JStr (js ''table'')
   \<and> renderRow (example_row (js ''<i>*Go*</i>'')) =
       Inr (js ''<div class="entry">\<newline>      <div class="entry-label">Q&amp;A</div>\<newline>      <div class="entry-value"><i>*Go*</i></div>\<newline>    </div>'')
   \<and> renderRow ((example_row [])\<lparr>row_value := JObj [(js ''toString'', JNull)]\<rparr>) = Inl TypeError
   \<and> renderRow ((example_row [])\<lparr>row_value := JArr [JNull, JBool True, JObj []]\<rparr>) =
       Inr (js ''<div class="entry">\<newline>      <div class="entry-label">Q&amp;A</div>\<newline>      <div class="entry-value">,true,[object Object]</div>\<newline>    </div>'')\<close>
proof -
  have t: "row_type (example_row v) \<noteq> JStr (js ''table'')" for v
    by (simp add: example_row_def)
  have t': "row_type ((example_row v)\<lparr>row_value := x\<rparr>) \<noteq> JStr (js ''table'')" for v x
    by (simp add: example_row_def)
  have a: "row_title (example_row v) = JStr (js ''Q&A'') \<and> row_value (example_row v) = JStr v" for v
    by (simp add: example_row_def)
  have e: "escape_str (js ''Q&A'') = js ''Q&amp;A''"
    by (simp add: escape_str_def)
  have f: "format_str (js ''*Go*'') = js ''<strong>Go</strong>''"
    by (simp add: format_str_def escape_str_def)
  from renderRow_non_table [OF t, of "js ''*Go*''" "js ''Q&A''" "js ''*Go*''"] a
  have "renderRow (example_row (js ''*Go*'')) =
      Inr (labeled_entry (escape_str (js ''Q&A''))
             (if ch CHR ''<'' \<in> set (js ''*Go*'') then js ''*Go*'' else format_str (js ''*Go*'')))"
    by blast
  then have 1: \<open>renderRow (example_row (js ''*Go*'')) =
       Inr (js ''<div class="entry">\<newline>      <div class="entry-label">Q&amp;A</div>\<newline>      <div class="entry-value"><strong>Go</strong></div>\<newline>    </div>'')\<close>
    unfolding e f by (simp add: labeled_entry_def)
  from renderRow_non_table [OF t, of "js ''<i>*Go*</i>''" "js ''Q&A''" "js ''<i>*Go*</i>''"] a
  have "renderRow (example_row (js ''<i>*Go*</i>'')) =
      Inr (labeled_entry (escape_str (js ''Q&A''))
             (if ch CHR ''<'' \<in> set (js ''<i>*Go*</i>'') then js ''<i>*Go*</i>''
              else format_str (js ''<i>*Go*</i>'')))"
    by blast
  then have 2: \<open>renderRow (example_row (js ''<i>*Go*</i>'')) =
       Inr (js ''<div class="entry">\<newline>      <div class="entry-label">Q&amp;A</div>\<newline>      <div class="entry-value"><i>*Go*</i></div>\<newline>    </div>'')\<close>
    unfolding e by (simp add: labeled_entry_def)
  from renderRow_non_table [OF t' [where v = "[]" and x = "JObj [(js ''toString'', JNull)]"]]
  have 3: "renderRow ((example_row [])\<lparr>row_value := JObj [(js ''toString'', JNull)]\<rparr>) = Inl TypeError"
    by (simp add: example_row_def preformatted_def escape_str_def)
  from renderRow_non_table [OF t' [where v = "[]" and x = "JArr [JNull, JBool True, JObj []]"]]
  have 4: \<open>renderRow ((example_row [])\<lparr>row_value := JArr [JNull, JBool True, JObj []]\<rparr>) =
       Inr (js ''<div class="entry">\<newline>      <div class="entry-label">Q&amp;A</div>\<newline>      <div class="entry-value">,true,[object Object]</div>\<newline>    </div>'')\<close>
    by (simp add: example_row_def preformatted_def escape_str_def labeled_entry_def)
  from t 1 2 3 4 show ?thesis
    by blast
qed

section \<open>Properties of the build script\<close>

lemma build_missing:
  "falsy (env_PII_EMAIL w) \<or> falsy (env_PII_PHONE w) \<Longrightarrow>
     build w = (case data_json w of None \<Rightarrow> ([], Uncaught ReadError)
                | Some data \<Rightarrow> ([pii_error], Exit 1))"
  by (cases "env_PII_EMAIL w"; cases "env_PII_PHONE w")
    (auto simp: build_def pii_error_def split: option.splits)

lemma generate_data_json:
  "generate (w\<lparr>data_json := x\<rparr>) data = generate w data"
  by (simp add: generate_def Let_def split: option.splits sum.splits)

text \<open>
  Claim C8. If one of the two secrets is unset or empty, the build ends with a status
  other than 0, reports an error and writes nothing; once \<open>data.json\<close> is loaded it is the
  message on standard error and \<open>process.exit(1)\<close>. With both secrets set and not empty,
  everything after line 24 runs on the document whose two contact fields hold the
  secrets: the run does not depend on what the loaded document had there.
\<close>

theorem build_requires_pii:
  "(falsy (env_PII_EMAIL w) \<or> falsy (env_PII_PHONE w) \<longrightarrow>
      exit_status (snd (build w)) \<noteq> 0 \<and> reports_error (build w)
      \<and> \<not> list_ex is_output (fst (build w))
      \<and> (data_json w \<noteq> None \<longrightarrow> build w = ([pii_error], Exit 1)))
   \<and> (data_json w = Some data \<and> env_PII_EMAIL w = Some e \<and> e \<noteq> []
        \<and> env_PII_PHONE w = Some p \<and> p \<noteq> [] \<longrightarrow>
      build w = generate w (data\<lparr>data_contact :=
                  (data_contact data)\<lparr>contact_email := e, contact_phone := p\<rparr>\<rparr>)
      \<and> build (w\<lparr>data_json := Some (data\<lparr>data_contact :=
                  (data_contact data)\<lparr>contact_email := e0, contact_phone := p0\<rparr>\<rparr>)\<rparr>) = build w)"
proof (intro conjI impI)
  assume m: "falsy (env_PII_EMAIL w) \<or> falsy (env_PII_PHONE w)"
  note b = build_missing [OF m]
  show "exit_status (snd (build w)) \<noteq> 0"
    unfolding b by (simp split: option.splits)
  show "reports_error (build w)"
    unfolding b by (simp add: reports_error_def pii_error_def split: option.splits)
  show "\<not> list_ex is_output (fst (build w))"
    unfolding b by (simp add: pii_error_def split: option.splits)
  show "build w = ([pii_error], Exit 1)" if "data_json w \<noteq> None"
    unfolding b using that by (auto split: option.splits)
next
  assume h: "data_json w = Some data \<and> env_PII_EMAIL w = Some e \<and> e \<noteq> []
        \<and> env_PII_PHONE w = Some p \<and> p \<noteq> []"
  then show "build w = generate w (data\<lparr>data_contact :=
                  (data_contact data)\<lparr>contact_email := e, contact_phone := p\<rparr>\<rparr>)"
    by (simp add: build_def set_pii_def)
  from h show "build (w\<lparr>data_json := Some (data\<lparr>data_contact :=
                  (data_contact data)\<lparr>contact_email := e0, contact_phone := p0\<rparr>\<rparr>)\<rparr>) = build w"
    by (simp add: build_def set_pii_def generate_data_json)
qed

lemma header_example:
  \<open>generateContent (set_pii (js ''j@e.c'') (js ''+1 23'') (example_doc (js ''Jo''))) =
    Inr (js ''<header class="header">\<newline>  <h1>Jo</h1>\<newline>  <div class="contact-info">\<newline>    <span class="protected bold" data-o="[113,71,108,53,106]" data-type="email" title="Click to reveal">***@e.c</span>\<newline>    <span class="protected" data-o="[50,56,39,57,58]" data-type="phone" title="Click to reveal">+1 *** *** 23</span>\<newline>    <span>Rome</span>\<newline>  </div>\<newline></header>\<newline>'')\<close>
  by (simp add: generateContent_def generateHeader_def set_pii_def example_doc_def
      JSON_stringify_def obfuscate_def stringify_int_def maskEmail_def maskPhone_def
      trim_def is_ws_def slice_last_def escape_str_def)

theorem build_requires_pii_witness:
  \<open>falsy (env_PII_EMAIL (example_world (js ''<!-- CONTENT -->'') None (Some (js ''+1 23'')) (js ''Jo'')))
   \<and> build (example_world (js ''<!-- CONTENT -->'') None (Some (js ''+1 23'')) (js ''Jo''))
       = ([pii_error], Exit 1)
   \<and> exit_status (Exit 1) \<noteq> 0
   \<and> reports_error ([pii_error], Exit 1)
   \<and> \<not> list_ex is_output [pii_error]
   \<and> data_json (example_world (js ''<!-- CONTENT -->'') (Some (js ''j@e.c'')) (Some (js ''+1 23'')) (js ''Jo''))
       = Some (example_doc (js ''Jo''))
   \<and> contact_email (data_contact (example_doc (js ''Jo''))) = js ''old@x.y''
   \<and> build (example_world (js ''<!-- CONTENT -->'') (Some (js ''j@e.c'')) (Some (js ''+1 23'')) (js ''Jo''))
       = ([WriteIndexHtml (js ''<header class="header">\<newline>  <h1>Jo</h1>\<newline>  <div class="contact-info">\<newline>    <span class="protected bold" data-o="[113,71,108,53,106]" data-type="email" title="Click to reveal">***@e.c</span>\<newline>    <span class="protected" data-o="[50,56,39,57,58]" data-type="phone" title="Click to reveal">+1 *** *** 23</span>\<newline>    <span>Rome</span>\<newline>  </div>\<newline></header>\<newline>''),
           ConsoleLog (js ''Generated: docs/index.html''), CopyStyleCss,
           ConsoleLog (js ''Copied: docs/style.css''), ConsoleLog (js ''\<newline>Build complete!'')],
          Completed)\<close>
proof -
  let ?wA = "example_world (js ''<!-- CONTENT -->'') None (Some (js ''+1 23'')) (js ''Jo'')"
  let ?wB = "example_world (js ''<!-- CONTENT -->'') (Some (js ''j@e.c'')) (Some (js ''+1 23'')) (js ''Jo'')"
  have a: "falsy (env_PII_EMAIL ?wA)" and a': "data_json ?wA \<noteq> None"
    by (simp_all add: example_world_def)
  from build_requires_pii [of ?wA] a a'
  have b: "build ?wA = ([pii_error], Exit 1)"
    by blast
  from build_requires_pii [of ?wA] a
  have c: "exit_status (snd (build ?wA)) \<noteq> 0 \<and> reports_error (build ?wA)
      \<and> \<not> list_ex is_output (fst (build ?wA))"
    by blast
  have d: "data_json ?wB = Some (example_doc (js ''Jo'')) \<and> env_PII_EMAIL ?wB = Some (js ''j@e.c'')
      \<and> js ''j@e.c'' \<noteq> [] \<and> env_PII_PHONE ?wB = Some (js ''+1 23'') \<and> js ''+1 23'' \<noteq> []"
    by (simp add: example_world_def)
  from build_requires_pii [where w = ?wB and data = "example_doc (js ''Jo'')"
      and e = "js ''j@e.c''" and p = "js ''+1 23''"] d
  have e: "build ?wB = generate ?wB (example_doc (js ''Jo'')
      \<lparr>data_contact := (data_contact (example_doc (js ''Jo'')))
          \<lparr>contact_email := js ''j@e.c'', contact_phone := js ''+1 23''\<rparr>\<rparr>)"
    by blast
  have f: \<open>generate ?wB (example_doc (js ''Jo'')
      \<lparr>data_contact := (data_contact (example_doc (js ''Jo'')))
          \<lparr>contact_email := js ''j@e.c'', contact_phone := js ''+1 23''\<rparr>\<rparr>)
     = ([WriteIndexHtml (js ''<header class="header">\<newline>  <h1>Jo</h1>\<newline>  <div class="contact-info">\<newline>    <span class="protected bold" data-o="[113,71,108,53,106]" data-type="email" title="Click to reveal">***@e.c</span>\<newline>    <span class="protected" data-o="[50,56,39,57,58]" data-type="phone" title="Click to reveal">+1 *** *** 23</span>\<newline>    <span>Rome</span>\<newline>  </div>\<newline></header>\<newline>''),
           ConsoleLog (js ''Generated: docs/index.html''), CopyStyleCss,
           ConsoleLog (js ''Copied: docs/style.css''), ConsoleLog (js ''\<newline>Build complete!'')],
          Completed)\<close>
    using header_example
    by (simp add: generate_def example_world_def set_pii_def substitute_def replace_str_def
        example_doc_def escape_str_def)
  have g: "contact_email (data_contact (example_doc (js ''Jo''))) = js ''old@x.y''"
    by (simp add: example_doc_def)
  from a b c d e f g show ?thesis
    by (simp only: b) simp
qed

section \<open>Properties of the substitution into the template\<close>




lemma indexOf_None: "\<not> sublist pat s \<Longrightarrow> indexOf s pat = None"
proof (induction s)
  case Nil
  then show ?case by auto
next
  case (Cons c cs)
  then have "\<not> prefix pat (c # cs)" "\<not> sublist pat cs"
    by (auto simp: sublist_Cons_right)
  with Cons.IH show ?case
    by simp
qed


lemma replace_str_absent: "\<not> sublist pat s \<Longrightarrow> replace_str s pat r = s"
  by (simp add: replace_str_def indexOf_None)

lemma substitute_eq:
  "toString (escapeHtml name) = Inr n \<Longrightarrow>
     substitute template content name =
       Inr (replace_str (replace_str template content_marker content) name_marker n)"
  by (simp add: substitute_def)

lemma substitute_absent:
  assumes "toString (escapeHtml name) = Inr n"
    and "\<not> sublist content_marker template" and "\<not> sublist name_marker template"
  shows "substitute template content name = Inr template"
  using assms by (simp add: substitute_eq replace_str_absent)




text \<open>
  Claim C9. Where a marker is present, the claim has it replaced by the rendered body or
  the escaped name. \<open>replace\<close> reads its second argument as a substitution template:
  the name \<open>A$$B\<close>, which \<open>escapeHtml\<close> leaves as it is, comes out as \<open>A$B\<close>, and the
  name \<open>R$&D\<close>, escaped to \<open>R$&amp;D\<close>, comes out with the marker back in it.
\<close>

theorem build_dollar_name:
  "build (example_world (js ''<title>{{NAME}}</title>'') (Some (js ''j@e.c'')) (Some (js ''+1 23''))
      (js ''A$$B''))
     = ([WriteIndexHtml (js ''<title>A$B</title>''), ConsoleLog (js ''Generated: docs/index.html''),
         CopyStyleCss, ConsoleLog (js ''Copied: docs/style.css''),
         ConsoleLog (js ''\<newline>Build complete!'')], Completed)
   \<and> toString (escapeHtml (JStr (js ''A$$B''))) = Inr (js ''A$$B'')
   \<and> build (example_world (js ''<title>{{NAME}}</title>'') (Some (js ''j@e.c'')) (Some (js ''+1 23''))
      (js ''R$&D''))
     = ([WriteIndexHtml (js ''<title>R{{NAME}}amp;D</title>''),
         ConsoleLog (js ''Generated: docs/index.html''),
         CopyStyleCss, ConsoleLog (js ''Copied: docs/style.css''),
         ConsoleLog (js ''\<newline>Build complete!'')], Completed)
   \<and> toString (escapeHtml (JStr (js ''R$&D''))) = Inr (js ''R$&amp;D'')"
  by (simp add: build_def generate_def example_world_def set_pii_def substitute_def replace_str_def
      example_doc_def escape_str_def generateContent_def generateHeader_def
      JSON_stringify_def obfuscate_def stringify_int_def maskEmail_def maskPhone_def
      trim_def is_ws_def slice_last_def)

end
